theory Spec2Isabelle
  imports Complex_Main
begin

section \<open>The fork-join loop runner (\<open>igl::parallel_for\<close>)\<close>

subsection \<open>Worker-count resolution: \<open>igl::default_num_threads\<close>\<close>

text \<open>
  What the resolution reads from outside the program: the value of \<open>atoi\<close> on the
  environment variable \<open>IGL_NUM_THREADS\<close> (\<open>None\<close> when \<open>getenv\<close> returns the null
  pointer) and the value of \<open>std::thread::hardware_concurrency()\<close>.
\<close>

record platform =
  env_num_thread :: "int option"
  hw_num_threads :: nat

text \<open>
  The constructor of the local class \<open>MySingleton\<close>: it stores \<open>m_num_threads\<close>, and
  each \<open>return\<close> of the source is one branch. An environment value that is not
  positive falls through to the hardware query.
\<close>

definition MySingleton :: "platform \<Rightarrow> nat \<Rightarrow> nat" where
  "MySingleton p force_num_threads =
     (if force_num_threads \<noteq> 0 then force_num_threads
      else case env_num_thread p of
        Some env \<Rightarrow>
          (if env > 0 then nat env
           else if hw_num_threads p \<noteq> 0 then hw_num_threads p
           else 8)
      | None \<Rightarrow>
          (if hw_num_threads p \<noteq> 0 then hw_num_threads p
           else 8))"

text \<open>
  \<open>static MySingleton instance(force_num_threads)\<close> is a function-local static: it is
  constructed by the first call that reaches it and kept for the rest of the process.
  The state of that static is \<open>None\<close> before the first call and \<open>Some m_num_threads\<close>
  afterwards; \<open>default_num_threads\<close> returns the number and the new state.
\<close>

type_synonym singleton = "nat option"

definition default_num_threads :: "platform \<Rightarrow> nat \<Rightarrow> singleton \<Rightarrow> nat \<times> singleton" where
  "default_num_threads p user_num_threads inst =
     (case inst of
        None \<Rightarrow> (let n = MySingleton p user_num_threads in (n, Some n))
      | Some n \<Rightarrow> (n, Some n))"

subsection \<open>The loop runner\<close>

text \<open>
  \<open>Index\<close> is a template parameter of the source; loop indices are modelled as
  mathematical integers, thread ids and thread counts (\<open>size_t\<close>) as naturals. The
  macro \<open>IGL_PARALLEL_FOR_FORCE_SERIAL\<close> is not defined in the source, so the thread
  count is the one \<open>default_num_threads()\<close> returns.

  The calls the runner makes on the calling thread are recorded in order:
  \<open>prep_func(n)\<close>, \<open>func(i, t)\<close>, \<open>accum_func(t)\<close>, the creation of a thread
  running \<open>range(k1, k2, t)\<close> (\<open>pool.emplace_back\<close>) and the join of the thread at a
  position of the pool.
\<close>

datatype event =
    PrepFunc nat
  | FuncCall int nat
  | AccumFunc nat
  | Spawn int int nat
  | Join nat

text \<open>
  How a run can fail: a failed \<open>assert\<close>, the use of a null pointer, and an exception
  thrown by one of the external kernels.
\<close>

datatype error = AssertionFailed | NullPointer | ExternalFailure

text \<open>
  The slice size is computed as the source computes it,
  \<open>std::max((Index)std::round((loop_size+1)/static_cast<double>(nthreads)),(Index)1)\<close>.

  The sum \<open>loop_size+1\<close> is a sum in \<open>Index\<close>, here a signed integer type of
  \<open>index_bits\<close> bits: \<open>to_Index\<close> reduces an integer to this type, wrapping
  around in two's complement.

  The sum and \<open>nthreads\<close> are converted to \<open>double\<close> and divided there.
  \<open>to_double\<close> is the rounding of these three operations: to the nearest number
  with a significand of 53 bits, a tie to the one whose significand is even
  (\<open>round_ties_even\<close> rounds the scaled significand). The exponent range of
  \<open>double\<close> is not modelled; quotients of integers of at most 64 bits stay far
  inside it.

  \<open>std::round\<close> rounds to the nearest integer, halfway cases away from zero. With
  more than one thread its result lies within \<open>Index\<close>, so the cast \<open>(Index)\<close>
  keeps it.
\<close>

definition to_Index :: "nat \<Rightarrow> int \<Rightarrow> int" where
  "to_Index index_bits k = signed_take_bit (index_bits - 1) k"

definition round_ties_even :: "real \<Rightarrow> int" where
  "round_ties_even y =
     (let f = \<lfloor>y\<rfloor> in
      if y - of_int f < 1 / 2 then f
      else if 1 / 2 < y - of_int f then f + 1
      else if even f then f else f + 1)"

definition to_double :: "real \<Rightarrow> real" where
  "to_double x =
     (if x = 0 then 0
      else let e = \<lfloor>log 2 \<bar>x\<bar>\<rfloor> - 52
           in of_int (round_ties_even (x / 2 powr of_int e)) * 2 powr of_int e)"

definition std_round :: "real \<Rightarrow> int" where
  "std_round x = (if x \<ge> 0 then \<lfloor>x + 1/2\<rfloor> else \<lceil>x - 1/2\<rceil>)"

definition slice_size :: "nat \<Rightarrow> int \<Rightarrow> nat \<Rightarrow> int" where
  "slice_size index_bits loop_size nthreads =
     max (std_round (to_double
            (to_double (real_of_int (to_Index index_bits (loop_size + 1)))
               / to_double (real nthreads)))) 1"



text \<open>
  The launching loop \<open>for (; t+1 < nthreads && i1 < loop_size; ++t)\<close>. It returns
  the values of \<open>i1\<close> and \<open>t\<close> at its exit and the threads created, in order.
\<close>

function launch :: "int \<Rightarrow> int \<Rightarrow> nat \<Rightarrow> int \<Rightarrow> int \<Rightarrow> nat \<Rightarrow> event list
    \<Rightarrow> int \<times> nat \<times> event list" where
  "launch slice loop_size nthreads i1 i2 t pool =
     (if t + 1 < nthreads \<and> i1 < loop_size
      then launch slice loop_size nthreads i2 (min (i2 + slice) loop_size) (t + 1)
             (pool @ [Spawn i1 i2 t])
      else (i1, t, pool))"
  by pat_completeness auto
termination
  by (relation "measure (\<lambda>(slice, loop_size, nthreads, i1, i2, t, pool). nthreads - t)") auto

declare launch.simps [simp del]

text \<open>
  \<open>parallel_for(loop_size, prep_func, func, accum_func, min_parallel)\<close>, for an
  \<open>Index\<close> of \<open>index_bits\<close> bits. The result is the returned flag, the events of
  the calling thread and the state of the thread-count singleton; a failed
  \<open>assert\<close> is \<open>Inl AssertionFailed\<close>.
\<close>

definition parallel_for :: "nat \<Rightarrow> platform \<Rightarrow> singleton \<Rightarrow> int \<Rightarrow> nat
    \<Rightarrow> error + (bool \<times> event list \<times> singleton)" where
  "parallel_for index_bits p inst loop_size min_parallel =
     (if \<not> loop_size \<ge> 0 then Inl AssertionFailed
      else if loop_size = 0 then Inr (False, [], inst)
      else
        let (nthreads, inst') = default_num_threads p 0 inst in
        if loop_size < int min_parallel \<or> nthreads \<le> 1
        then Inr (False,
                  [PrepFunc 1] @ map (\<lambda>i. FuncCall i 0) [0..loop_size - 1] @ [AccumFunc 0],
                  inst')
        else
          let slice = slice_size index_bits loop_size nthreads;
              (i1, t, pool) = launch slice loop_size nthreads 0 (min (0 + slice) loop_size) 0 [];
              pool' = (if i1 < loop_size then pool @ [Spawn i1 loop_size t] else pool)
          in Inr (True,
                  [PrepFunc nthreads] @ pool' @ map Join [0..<length pool'] @ map AccumFunc [0..<nthreads],
                  inst'))"


section \<open>The OpenVDB adapter (\<open>vcg::tri::OpenVDBAdapter\<close>)\<close>

subsection \<open>Data\<close>

text \<open>
  Scalars (\<open>ScalarType\<close>, \<open>float\<close>, \<open>double\<close>) are modelled as real numbers: the
  arithmetic of the source is taken exactly, and the conversions between \<open>float\<close> and
  \<open>double\<close> are the identity. \<open>openvdb::Coord\<close> is a triple of integers,
  \<open>Vec3I\<close> and \<open>Vec4I\<close> are tuples of vertex indices.
\<close>

type_synonym vec3 = "real \<times> real \<times> real"
type_synonym Coord = "int \<times> int \<times> int"
type_synonym Vec3I = "nat \<times> nat \<times> nat"
type_synonym Vec4I = "nat \<times> nat \<times> nat \<times> nat"

text \<open>
  A face of a mesh holds three vertex pointers \<open>V(0)\<close>, \<open>V(1)\<close>, \<open>V(2)\<close> into
  the vertex container of its mesh: \<open>VertPtr k\<close> is \<open>&mesh.vert[k]\<close>, \<open>Null\<close>
  the pointer of a face that has not been assigned yet.
\<close>

datatype vptr = Null | VertPtr nat

record MeshType =
  vert :: "vec3 list"
  face :: "(vptr \<times> vptr \<times> vptr) list"

text \<open>
  Modelled from the spec: \<open>MeshType::Clear\<close>, \<open>Allocator::AddVertices\<close>,
  \<open>Allocator::AddFaces\<close> and \<open>vcg::tri::Index\<close> belong to the mesh library and are
  not among the source files. \<open>Clear\<close> leaves the mesh in its cleared state, with
  no vertex and no face. \<open>AddVertices\<close> and \<open>AddFaces\<close> allocate exactly the
  requested number of elements at the end of the container and return the position of the
  first of them; the coordinates of a vertex that has not been written yet are the
  parameter \<open>fresh\<close>. \<open>Index\<close> is the position of the vertex a pointer refers to.
\<close>

definition Clear :: "MeshType \<Rightarrow> MeshType" where
  "Clear msh = msh\<lparr>vert := [], face := []\<rparr>"

definition AddVertices :: "vec3 \<Rightarrow> MeshType \<Rightarrow> nat \<Rightarrow> MeshType \<times> nat" where
  "AddVertices fresh msh n = (msh\<lparr>vert := vert msh @ replicate n fresh\<rparr>, length (vert msh))"

definition AddFaces :: "MeshType \<Rightarrow> nat \<Rightarrow> MeshType \<times> nat" where
  "AddFaces msh n = (msh\<lparr>face := face msh @ replicate n (Null, Null, Null)\<rparr>, length (face msh))"

fun Index :: "vptr \<Rightarrow> error + nat" where
  "Index Null = Inl NullPointer"
| "Index (VertPtr k) = Inr k"

text \<open>
  The triples \<open>Index(m, face[i].V(0))\<close>, \<open>Index(m, face[i].V(1))\<close>,
  \<open>Index(m, face[i].V(2))\<close> of all faces, in order: the loop over the faces in
  \<open>WindingNumber::init\<close> and in \<open>copyMeshVectors\<close>.
\<close>

fun face_indices :: "(vptr \<times> vptr \<times> vptr) list \<Rightarrow> error + Vec3I list" where
  "face_indices [] = Inr []"
| "face_indices ((v0, v1, v2) # fs) =
     (case Index v0 of Inl e \<Rightarrow> Inl e | Inr i0 \<Rightarrow>
      case Index v1 of Inl e \<Rightarrow> Inl e | Inr i1 \<Rightarrow>
      case Index v2 of Inl e \<Rightarrow> Inl e | Inr i2 \<Rightarrow>
      case face_indices fs of Inl e \<Rightarrow> Inl e | Inr is \<Rightarrow> Inr ((i0, i1, i2) # is))"

subsection \<open>The external services\<close>

text \<open>
  \<open>openvdb::math::Transform\<close>, the solid-angle summation \<open>HDK_Sample::UT_SolidAngle\<close>
  and the three OpenVDB kernels are consumed as black boxes: they are parameters of the
  model. A kernel either returns its result or throws, which is \<open>Inl\<close>. The
  arguments of \<open>openvdb::tools::meshToVolume\<close> that the adapter never varies (the
  null interrupter, the null polygon-index grid and \<open>EVAL_EVERY_TILE\<close>) are left
  out of \<open>vdb_meshToVolume\<close>.

  A call of \<open>UT_SolidAngle::computeSolidAngle(pt, accuracy_scale)\<close> is recorded as
  \<open>ComputeSolidAngle pt accuracy_scale\<close>; the interior-test callback handed to the
  volume kernel returns its verdict together with the calls it made.
\<close>

record Transform =
  indexToWorld :: "Coord \<Rightarrow> vec3"
  worldToIndex :: "vec3 \<Rightarrow> vec3"

datatype service_call = ComputeSolidAngle vec3 real

record MeshTypeDataAdapter =
  mda_m :: "MeshType option"
  mda_xform :: "Transform option"

record 'g externals =
  createLinearTransform :: "real \<Rightarrow> Transform"
  UT_SolidAngle_init :: "nat list \<Rightarrow> vec3 list \<Rightarrow> int \<Rightarrow> vec3 \<Rightarrow> real \<Rightarrow> real"
  vdb_meshToVolume :: "MeshTypeDataAdapter \<Rightarrow> Transform \<Rightarrow> real \<Rightarrow> real \<Rightarrow> int
      \<Rightarrow> (Coord \<Rightarrow> bool \<times> service_call list) \<Rightarrow> error + 'g"
  vdb_meshToLevelSet :: "Transform \<Rightarrow> vec3 list \<Rightarrow> Vec3I list \<Rightarrow> real \<Rightarrow> error + 'g"
  vdb_volumeToMesh :: "'g \<Rightarrow> real \<Rightarrow> real \<Rightarrow> error + (vec3 list \<times> Vec3I list \<times> Vec4I list)"
  fresh_vertex :: vec3

subsection \<open>\<open>WindingNumber\<close>\<close>

text \<open>
  The class holds the initialised summation service; \<open>solid_angle w pt acc\<close> is
  \<open>solid_angle.computeSolidAngle(pt, acc)\<close>.
\<close>

record WindingNumber =
  solid_angle :: "vec3 \<Rightarrow> real \<Rightarrow> real"

definition init :: "'g externals \<Rightarrow> MeshType \<Rightarrow> int \<Rightarrow> error + WindingNumber" where
  "init ext msh order =
     (let U = vert msh in
      case face_indices (face msh) of
        Inl e \<Rightarrow> Inl e
      | Inr tris \<Rightarrow>
          let mTriIndex = concat (map (\<lambda>(i0, i1, i2). [i0, i1, i2]) tris)
          in Inr \<lparr>solid_angle = UT_SolidAngle_init ext mTriIndex U order\<rparr>)"

text \<open>
  \<open>computeWindingNumber(coordV, accuracy_scale = 2.0)\<close>: the default argument is the
  case \<open>None\<close>.
\<close>

definition computeWindingNumber :: "WindingNumber \<Rightarrow> vec3 \<Rightarrow> real option
    \<Rightarrow> real \<times> service_call list" where
  "computeWindingNumber w coordV accuracy_scale =
     (let acc = (case accuracy_scale of None \<Rightarrow> 2 | Some s \<Rightarrow> s);
          pt = coordV
      in (solid_angle w pt acc / (4 * pi), [ComputeSolidAngle pt acc]))"

subsection \<open>\<open>OpenVDBAdapter\<close>\<close>

record 'g OpenVDBAdapter =
  mVtx :: "vec3 list"
  mTri :: "Vec3I list"
  mQuad :: "Vec4I list"
  m :: "MeshType option"
  grid :: "'g option"
  windingNumber :: WindingNumber
  meshDataAdapter :: MeshTypeDataAdapter
  isovalue :: real
  adaptivity :: real
  voxelSize :: real

definition setIsovalue :: "'g OpenVDBAdapter \<Rightarrow> real \<Rightarrow> 'g OpenVDBAdapter" where
  "setIsovalue a v = a\<lparr>isovalue := v\<rparr>"

definition setAdaptivity :: "'g OpenVDBAdapter \<Rightarrow> real \<Rightarrow> 'g OpenVDBAdapter" where
  "setAdaptivity a v = a\<lparr>adaptivity := v\<rparr>"

definition setVoxelSize :: "'g OpenVDBAdapter \<Rightarrow> real \<Rightarrow> 'g OpenVDBAdapter" where
  "setVoxelSize a v = a\<lparr>voxelSize := v\<rparr>"

definition setMesh :: "'g OpenVDBAdapter \<Rightarrow> MeshType option \<Rightarrow> 'g OpenVDBAdapter" where
  "setMesh a p = a\<lparr>m := p\<rparr>"

text \<open>
  The lambda \<open>interiorTest\<close> of \<open>meshToVolume\<close>, with its captures \<open>xform\<close>,
  \<open>windingNumber\<close> and \<open>voxelSize\<close> as the first three arguments.
\<close>

definition interiorTest :: "Transform \<Rightarrow> WindingNumber \<Rightarrow> real \<Rightarrow> Coord
    \<Rightarrow> bool \<times> service_call list" where
  "interiorTest xform w vs coord =
     (let worldCoord = indexToWorld xform coord;
          coordV = worldCoord;
          (wn, calls) = computeWindingNumber w coordV (Some vs)
      in (if \<bar>wn\<bar> \<ge> 1 / 2 then True else False, calls))"

definition meshToVolume :: "'g externals \<Rightarrow> 'g OpenVDBAdapter \<Rightarrow> error + 'g OpenVDBAdapter" where
  "meshToVolume ext a =
     (if \<not> voxelSize a > 0 then Inl AssertionFailed
      else
        let xform = createLinearTransform ext (voxelSize a);
            mda = (meshDataAdapter a)\<lparr>mda_m := m a, mda_xform := Some xform\<rparr>
        in case m a of
             None \<Rightarrow> Inl NullPointer
           | Some msh \<Rightarrow>
               (case init ext msh 2 of
                  Inl e \<Rightarrow> Inl e
                | Inr w \<Rightarrow>
                    let outerBand = (if isovalue a > 0 then isovalue a / voxelSize a else 0) + 1 / 2;
                        innerBand = (if isovalue a < 0 then (- isovalue a) / voxelSize a else 0) + 1 / 2
                    in case vdb_meshToVolume ext mda xform outerBand innerBand 0
                              (interiorTest xform w (voxelSize a)) of
                         Inl e \<Rightarrow> Inl e
                       | Inr g \<Rightarrow>
                           Inr (a\<lparr>meshDataAdapter := mda, windingNumber := w, grid := Some g\<rparr>)))"

definition clearVectors :: "'g OpenVDBAdapter \<Rightarrow> 'g OpenVDBAdapter" where
  "clearVectors a = a\<lparr>mVtx := [], mTri := [], mQuad := []\<rparr>"

definition copyMeshVectors :: "'g OpenVDBAdapter \<Rightarrow> error + 'g OpenVDBAdapter" where
  "copyMeshVectors a =
     (let a1 = clearVectors a in
      case m a1 of
        None \<Rightarrow> Inl NullPointer
      | Some msh \<Rightarrow>
          (case face_indices (face msh) of
             Inl e \<Rightarrow> Inl e
           | Inr tris \<Rightarrow> Inr (a1\<lparr>mVtx := mVtx a1 @ vert msh, mTri := mTri a1 @ tris\<rparr>)))"

definition meshToLevelSet :: "'g externals \<Rightarrow> 'g OpenVDBAdapter \<Rightarrow> error + 'g OpenVDBAdapter" where
  "meshToLevelSet ext a =
     (case copyMeshVectors a of
        Inl e \<Rightarrow> Inl e
      | Inr a1 \<Rightarrow>
          if \<not> length (mVtx a1) > 0 then Inl AssertionFailed
          else if \<not> length (mTri a1) > 0 then Inl AssertionFailed
          else if \<not> voxelSize a1 > 0 then Inl AssertionFailed
          else
            let xform = createLinearTransform ext (voxelSize a1)
            in case vdb_meshToLevelSet ext xform (mVtx a1) (mTri a1)
                      (\<bar>isovalue a1 / voxelSize a1\<bar> + 1) of
                 Inl e \<Rightarrow> Inl e
               | Inr g \<Rightarrow> Inr (a1\<lparr>grid := Some g\<rparr>))"

text \<open>
  The three filling loops of \<open>volumeToMesh\<close>. \<open>vi\<close> and \<open>fi\<close> are the
  iterators returned by the allocator, as positions; the face loops return the
  position \<open>fi\<close> has reached.
\<close>

definition set_vertices :: "vec3 list \<Rightarrow> nat \<Rightarrow> MeshType \<Rightarrow> MeshType" where
  "set_vertices vtx vi outMesh =
     fold (\<lambda>i msh. msh\<lparr>vert := (vert msh)[vi + i := vtx ! i]\<rparr>) [0..<length vtx] outMesh"

definition set_triangles :: "Vec3I list \<Rightarrow> nat \<Rightarrow> MeshType \<Rightarrow> MeshType \<times> nat" where
  "set_triangles tri fi outMesh =
     fold (\<lambda>i (msh, fi).
             (case tri ! i of (t0, t1, t2) \<Rightarrow>
                (msh\<lparr>face := (face msh)[fi := (VertPtr t2, VertPtr t1, VertPtr t0)]\<rparr>, fi + 1)))
          [0..<length tri] (outMesh, fi)"

definition set_quads :: "Vec4I list \<Rightarrow> nat \<Rightarrow> MeshType \<Rightarrow> MeshType \<times> nat" where
  "set_quads quad fi outMesh =
     fold (\<lambda>i (msh, fi).
             (case quad ! i of (q0, q1, q2, q3) \<Rightarrow>
                let msh1 = msh\<lparr>face := (face msh)[fi := (VertPtr q2, VertPtr q1, VertPtr q0)]\<rparr>;
                    fi1 = fi + 1;
                    msh2 = msh1\<lparr>face := (face msh1)[fi1 := (VertPtr q3, VertPtr q2, VertPtr q0)]\<rparr>;
                    fi2 = fi1 + 1
                in (msh2, fi2)))
          [0..<length quad] (outMesh, fi)"

text \<open>
  \<open>volumeToMesh(outMesh)\<close>. \<open>outMesh\<close> is passed by reference, so a failing run
  also leaves a mesh behind: the result is \<open>Inl\<close> of the error and the mesh as the
  failure leaves it, or \<open>Inr\<close> of the adapter and the mesh after the run. The source
  does not compare the indices of the soup with the number of vertices:
  \<open>&outMesh.vert[k]\<close> is recorded as \<open>VertPtr k\<close> whatever \<open>k\<close> is.
\<close>

definition volumeToMesh :: "'g externals \<Rightarrow> 'g OpenVDBAdapter \<Rightarrow> MeshType
    \<Rightarrow> error \<times> MeshType + 'g OpenVDBAdapter \<times> MeshType" where
  "volumeToMesh ext a outMesh =
     (case grid a of
        None \<Rightarrow> Inl (AssertionFailed, outMesh)
      | Some g \<Rightarrow>
          (case vdb_volumeToMesh ext g (isovalue a) (adaptivity a) of
             Inl e \<Rightarrow> Inl (e, outMesh)
           | Inr (vtx, tri, quad) \<Rightarrow>
               let a1 = a\<lparr>mVtx := vtx, mTri := tri, mQuad := quad\<rparr>;
                   msh0 = Clear outMesh;
                   (msh1, vi) = AddVertices (fresh_vertex ext) msh0 (length (mVtx a1));
                   (msh2, fi) = AddFaces msh1 (length (mTri a1) + length (mQuad a1) * 2);
                   msh3 = set_vertices (mVtx a1) vi msh2;
                   (msh4, fi1) = set_triangles (mTri a1) fi msh3;
                   (msh5, fi2) = set_quads (mQuad a1) fi1 msh4
               in Inr (a1, msh5)))"

text \<open>
  The faces the specification asks for: a triangle \<open>(a, b, c)\<close> with reversed
  winding, and the two triangles of a quad \<open>(a, b, c, d)\<close>.
\<close>

definition reversed_triangle :: "Vec3I \<Rightarrow> vptr \<times> vptr \<times> vptr" where
  "reversed_triangle t = (case t of (a, b, c) \<Rightarrow> (VertPtr c, VertPtr b, VertPtr a))"

definition split_quad :: "Vec4I \<Rightarrow> (vptr \<times> vptr \<times> vptr) list" where
  "split_quad q = (case q of (a, b, c, d) \<Rightarrow>
     [(VertPtr c, VertPtr b, VertPtr a), (VertPtr d, VertPtr c, VertPtr a)])"

subsection \<open>Concrete inputs\<close>

text \<open>
  A stand-in for the external services, whose grids are just the band widths they were
  built with, and an adapter bound to a mesh of one triangle.
\<close>

definition ext0 :: "(real \<times> real) externals" where
  "ext0 = \<lparr>createLinearTransform =
             (\<lambda>s. \<lparr>indexToWorld = (\<lambda>(i, j, k). (s * real_of_int i, s * real_of_int j, s * real_of_int k)),
                    worldToIndex = (\<lambda>(x, y, z). (x / s, y / s, z / s))\<rparr>),
           UT_SolidAngle_init = (\<lambda>tris pts order pt acc. 0),
           vdb_meshToVolume = (\<lambda>mda xf ob ib fl it. Inr (ob, ib)),
           vdb_meshToLevelSet = (\<lambda>xf vs ts hw. Inr (hw, hw)),
           vdb_volumeToMesh = (\<lambda>g iso ad. Inr ([(0, 0, 0), (1, 0, 0), (1, 1, 0), (0, 1, 0)], [], [(0, 1, 2, 3)])),
           fresh_vertex = (7, 7, 7)\<rparr>"

definition ext_failing :: "(real \<times> real) externals" where
  "ext_failing = ext0\<lparr>vdb_volumeToMesh := (\<lambda>g iso ad. Inl ExternalFailure)\<rparr>"

definition ext_empty :: "(real \<times> real) externals" where
  "ext_empty = ext0\<lparr>vdb_volumeToMesh := (\<lambda>g iso ad. Inr ([], [], []))\<rparr>"

definition mesh0 :: MeshType where
  "mesh0 = \<lparr>vert = [(0, 0, 0), (1, 0, 0), (0, 1, 0)], face = [(VertPtr 0, VertPtr 1, VertPtr 2)]\<rparr>"

definition a0 :: "(real \<times> real) OpenVDBAdapter" where
  "a0 = \<lparr>mVtx = [], mTri = [], mQuad = [], m = Some mesh0,
          grid = Some (0, 0), windingNumber = \<lparr>solid_angle = (\<lambda>p a. 0)\<rparr>,
          meshDataAdapter = \<lparr>mda_m = None, mda_xform = None\<rparr>,
          isovalue = 1, adaptivity = 0, voxelSize = 4\<rparr>"


section \<open>Properties of the loop runner\<close>

subsection \<open>Worker-count resolution\<close>

text \<open>
  Claim C6, as the code has it: the first call of \<open>default_num_threads\<close> in a process
  resolves the worker count in priority order (its own override if nonzero, else the
  environment value if positive, else the hardware concurrency if nonzero, else 8) and
  memoizes it; every later call returns the memoized count whatever override it is
  given, so two calls in a row always return the same count.
\<close>

theorem default_num_threads_first_call_wins:
  "default_num_threads p u None =
     ((if u \<noteq> 0 then u
       else if (\<exists>e. env_num_thread p = Some e \<and> 0 < e) then nat (the (env_num_thread p))
       else if hw_num_threads p \<noteq> 0 then hw_num_threads p
       else 8),
      Some (if u \<noteq> 0 then u
       else if (\<exists>e. env_num_thread p = Some e \<and> 0 < e) then nat (the (env_num_thread p))
       else if hw_num_threads p \<noteq> 0 then hw_num_threads p
       else 8))
   \<and> default_num_threads p u (Some n) = (n, Some n)
   \<and> fst (default_num_threads p u' (snd (default_num_threads p u inst))) =
       fst (default_num_threads p u inst)"
  by (auto simp: default_num_threads_def MySingleton_def Let_def split: option.splits)

text \<open>
  With no environment value and four hardware threads, a first call without override
  returns 4; a second call with the override 2 still returns 4.
\<close>

theorem default_num_threads_override_counterexample:
  "fst (default_num_threads \<lparr>env_num_thread = None, hw_num_threads = 4\<rparr> 0 None) = 4
   \<and> fst (default_num_threads \<lparr>env_num_thread = None, hw_num_threads = 4\<rparr> 2
        (snd (default_num_threads \<lparr>env_num_thread = None, hw_num_threads = 4\<rparr> 0 None))) = 4"
  by (simp add: default_num_threads_def MySingleton_def)

subsection \<open>The slice size\<close>


text \<open>The rounding to \<open>double\<close>: its error, and the numbers it leaves as they are.\<close>

lemma round_ties_even_error: "\<bar>of_int (round_ties_even y) - y\<bar> \<le> 1 / 2"
  unfolding round_ties_even_def Let_def by (auto; linarith)

lemma round_ties_even_of_int: "round_ties_even (of_int k) = k"
  by (simp add: round_ties_even_def)

text \<open>The exponent \<open>to_double\<close> chooses brackets its argument.\<close>

lemma exponent_bounds:
  assumes "x \<noteq> 0"
  shows "2 powr of_int \<lfloor>log 2 \<bar>x\<bar>\<rfloor> \<le> \<bar>x\<bar>" and "\<bar>x\<bar> < 2 powr (of_int \<lfloor>log 2 \<bar>x\<bar>\<rfloor> + 1)"
  using floor_log_eq_powr_iff [of "\<bar>x\<bar>" 2 "\<lfloor>log 2 \<bar>x\<bar>\<rfloor>"] assms by simp_all

lemma to_double_error: "\<bar>to_double x - x\<bar> \<le> \<bar>x\<bar> / 2 ^ 53"
proof (cases "x = 0")
  case True
  then show ?thesis by (simp add: to_double_def)
next
  case False
  define e where "e = \<lfloor>log 2 \<bar>x\<bar>\<rfloor>"
  define u :: real where "u = 2 powr of_int (e - 52)"
  have u: "0 < u" by (simp add: u_def)
  have d: "to_double x = of_int (round_ties_even (x / u)) * u"
    using False by (simp add: to_double_def e_def u_def Let_def)
  have "to_double x - x = (of_int (round_ties_even (x / u)) - x / u) * u"
    using u by (simp add: d field_simps)
  then have "\<bar>to_double x - x\<bar> = \<bar>of_int (round_ties_even (x / u)) - x / u\<bar> * u"
    using u by (simp add: abs_mult)
  also have "\<dots> \<le> 1 / 2 * u"
    using round_ties_even_error [of "x / u"] u by (intro mult_right_mono) simp_all
  also have "1 / 2 * u = 2 powr of_int e / 2 ^ 53"
    by (simp add: u_def powr_diff)
  also have "\<dots> \<le> \<bar>x\<bar> / 2 ^ 53"
    using exponent_bounds(1) [OF False] by (simp add: e_def divide_right_mono)
  finally show ?thesis .
qed

lemma to_double_exact:
  assumes "\<bar>k\<bar> < 2 ^ 53"
  shows "to_double (of_int k * 2 powr of_int j) = of_int k * 2 powr of_int j"
proof (cases "k = 0")
  case True
  then show ?thesis by (simp add: to_double_def)
next
  case False
  define x :: real where "x = of_int k * 2 powr of_int j"
  have x0: "x \<noteq> 0" using False by (simp add: x_def)
  define e where "e = \<lfloor>log 2 \<bar>x\<bar>\<rfloor>"
  have "\<bar>x\<bar> = \<bar>of_int k\<bar> * 2 powr of_int j" by (simp add: x_def abs_mult)
  also have "\<dots> < 2 ^ 53 * 2 powr of_int j"
  proof -
    have "\<bar>real_of_int k\<bar> < 2 ^ 53" using assms by (metis of_int_abs of_int_less_numeral_power_cancel_iff)
    then show ?thesis by simp
  qed
  also have "\<dots> = 2 powr (of_int (53 + j))"
    by (simp add: powr_add powr_realpow [symmetric])
  finally have "\<bar>x\<bar> < 2 powr (of_int (53 + j))" .
  moreover have "2 powr of_int e \<le> \<bar>x\<bar>"
    using exponent_bounds(1) [OF x0] by (simp add: e_def)
  ultimately have "2 powr of_int e < (2::real) powr of_int (53 + j)" by linarith
  then have "real_of_int e < real_of_int (53 + j)" by simp
  then have "e < 53 + j" by linarith
  define n where "n = nat (j - (e - 52))"
  have n: "j - (e - 52) = int n" using \<open>e < 53 + j\<close> by (simp add: n_def)
  have "x / 2 powr of_int (e - 52) = of_int k * 2 powr of_int (j - (e - 52))"
    by (simp add: x_def powr_diff)
  also have "\<dots> = of_int (k * 2 ^ n)"
    by (simp add: n powr_realpow)
  finally have q: "x / 2 powr of_int (e - 52) = of_int (k * 2 ^ n)" .
  have "to_double x = of_int (round_ties_even (x / 2 powr of_int (e - 52))) * 2 powr of_int (e - 52)"
    using x0 unfolding to_double_def e_def Let_def by simp
  also have "\<dots> = of_int (k * 2 ^ n) * 2 powr of_int (e - 52)"
    unfolding q round_ties_even_of_int ..
  also have "\<dots> = x / 2 powr of_int (e - 52) * 2 powr of_int (e - 52)"
    unfolding q ..
  also have "\<dots> = x" by simp
  finally show ?thesis unfolding x_def .
qed

lemma to_double_of_int: "\<bar>k\<bar> < 2 ^ 53 \<Longrightarrow> to_double (of_int k) = of_int k"
  using to_double_exact [of k 0] by simp


text \<open>
  For a numerator below \<open>2^52\<close> the rounding of the quotient to \<open>double\<close> cannot
  carry it across a half-integer, so \<open>std::round\<close> returns the integer it would
  return on the exact quotient.
\<close>

lemma std_round_to_double_quotient:
  assumes "0 < a" "a < 2 ^ 52" "0 < b"
  shows "std_round (to_double (real_of_int a / real_of_int b)) = (2 * a + b) div (2 * b)"
proof -
  define q where "q = real_of_int a / real_of_int b"
  define n where "n = (2 * a + b) div (2 * b)"
  define r where "r = (2 * a + b) mod (2 * b)"
  have b: "0 < real_of_int b" and a: "0 < real_of_int a" using assms by simp_all
  have q: "0 < q" using a b by (simp add: q_def)
  have dm: "2 * a + b = 2 * b * n + r" and r0: "0 \<le> r" and r1: "r < 2 * b"
    using assms by (simp_all add: n_def r_def)
  have qn: "q + 1 / 2 = of_int n + of_int r / (2 * of_int b)"
  proof -
    have "real_of_int (2 * a + b) = real_of_int (2 * b * n + r)" using dm by simp
    then show ?thesis using b by (simp add: q_def field_simps)
  qed
  have err: "\<bar>to_double q - q\<bar> < 1 / (2 * of_int b)"
  proof -
    have "\<bar>to_double q - q\<bar> \<le> q / 2 ^ 53" using to_double_error [of q] q by simp
    also have "\<dots> = (of_int a / 2 ^ 52) * (1 / (2 * of_int b))" by (simp add: q_def)
    also have "\<dots> < 1 * (1 / (2 * of_int b))"
    proof (rule mult_strict_right_mono)
      have "real_of_int a < 2 ^ 52" using assms(2) by (metis of_int_less_numeral_power_cancel_iff)
      then show "real_of_int a / 2 ^ 52 < 1" by simp
      show "0 < 1 / (2 * real_of_int b)" using b by simp
    qed
    finally show ?thesis by simp
  qed
  have up: "to_double q + 1 / 2 < of_int n + 1"
  proof -
    have "r + 1 \<le> 2 * b" using r1 by simp
    then have "real_of_int r + 1 \<le> 2 * real_of_int b" by linarith
    then have "of_int r / (2 * of_int b) + 1 / (2 * of_int b) \<le> (1::real)"
      using b by (simp add: field_simps)
    then show ?thesis using err qn by linarith
  qed
  have lo: "of_int n \<le> to_double q + 1 / 2"
  proof (cases "r = 0")
    case True
    then have h: "q = of_int (2 * n - 1) * 2 powr of_int (- 1)"
      using qn by (simp add: powr_minus field_simps)
    have "0 < 2 * n - 1" using q h by (simp add: zero_less_mult_iff)
    moreover have "real_of_int n \<le> real_of_int a"
    proof -
      have "real_of_int n < q + 1 / 2 + 1 / 2" using qn True q by simp
      moreover have "q \<le> real_of_int a" using a b assms(3) by (simp add: q_def field_simps mult_le_cancel_left1)
      ultimately have "real_of_int n < real_of_int a + 1" by linarith
      then have "n < a + 1" by linarith
      then show ?thesis by simp
    qed
    then have "n \<le> a" by linarith
    ultimately have "\<bar>2 * n - 1\<bar> < 2 ^ 53" using assms(2) by simp
    then have "to_double q = q" unfolding h by (rule to_double_exact)
    then show ?thesis using qn True by simp
  next
    case False
    then have "1 \<le> r" using r0 by simp
    then have "1 \<le> real_of_int r" by linarith
    then have "1 / (2 * of_int b) \<le> of_int r / (2 * real_of_int b)"
      using b by (simp add: divide_right_mono)
    then show ?thesis using err qn by linarith
  qed
  have pos: "0 \<le> to_double q"
  proof -
    have "1 / (2 * of_int b) \<le> q" using a b assms(1) by (simp add: q_def field_simps)
    then show ?thesis using err by linarith
  qed
  have "\<lfloor>to_double q + 1 / 2\<rfloor> = n" using up lo by linarith
  then show ?thesis using pos by (simp add: std_round_def q_def n_def)
qed

lemma slice_size_exact:
  assumes "0 \<le> loop_size" "loop_size + 1 < 2 ^ (index_bits - 1)" "loop_size + 1 < 2 ^ 52"
    and "0 < nthreads" "nthreads < 2 ^ 53"
  shows "slice_size index_bits loop_size nthreads =
           max ((2 * (loop_size + 1) + int nthreads) div (2 * int nthreads)) 1"
proof -
  have i: "to_Index index_bits (loop_size + 1) = loop_size + 1"
    unfolding to_Index_def using assms(1,2) by (intro signed_take_bit_int_eq_self) simp_all
  have a: "to_double (real_of_int (loop_size + 1)) = real_of_int (loop_size + 1)"
    using assms(1,3) by (intro to_double_of_int) simp
  have "\<bar>int nthreads\<bar> < 2 ^ 53" using assms(5) by simp
  then have "to_double (real_of_int (int nthreads)) = real_of_int (int nthreads)"
    by (rule to_double_of_int)
  then have b: "to_double (real nthreads) = real_of_int (int nthreads)" by simp
  show ?thesis
    unfolding slice_size_def i a b
    using std_round_to_double_quotient [of "loop_size + 1" "int nthreads"] assms by simp
qed

text \<open>
  Outside these bounds the slice size is another one. With a 32-bit \<open>Index\<close> and
  \<open>loop_size = 2^31 - 1\<close> the sum \<open>loop_size+1\<close> wraps around to \<open>-2^31\<close> and
  the slice size is 1; with a 64-bit \<open>Index\<close>, \<open>loop_size = 2^53\<close> and two
  threads the conversion of \<open>2^53 + 1\<close> to \<open>double\<close> is \<open>2^53\<close> and the slice
  size is \<open>2^52\<close>.
\<close>

lemma slice_size_at_INT_MAX: "slice_size 32 (2 ^ 31 - 1) 4 = 1"
proof -
  have i: "to_Index 32 (2 ^ 31 - 1 + 1) = - (2 ^ 31)"
    by (simp add: to_Index_def signed_take_bit_eq_take_bit_minus take_bit_eq_mod)
  have a: "to_double (real_of_int (- (2 ^ 31))) = real_of_int (- (2 ^ 31))"
    by (rule to_double_of_int) simp
  have b: "to_double (real 4) = 4" using to_double_of_int [of 4] by simp
  have c: "to_double (real_of_int (- (2 ^ 31)) / 4) = real_of_int (- (2 ^ 29))"
    using to_double_of_int [of "- (2 ^ 29)"] by simp
  have "std_round (real_of_int (- (2 ^ 29))) = - (2 ^ 29)"
    by (simp add: std_round_def)
  then show ?thesis unfolding slice_size_def i a b c by simp
qed


lemma to_double_tie: "to_double (real_of_int (2 ^ 53 + 1)) = 2 ^ 53"
proof -
  have e: "\<lfloor>log 2 \<bar>real_of_int (2 ^ 53 + 1)\<bar>\<rfloor> = 53"
    by (subst floor_log_eq_powr_iff) simp_all
  have f: "\<lfloor>(9007199254740993::real) / 2\<rfloor> = 4503599627370496" by simp
  have r: "round_ties_even (9007199254740993 / 2) = 4503599627370496"
    unfolding round_ties_even_def Let_def f by simp
  show ?thesis
    unfolding to_double_def Let_def e using r by simp
qed

lemma slice_size_at_2_53: "slice_size 64 (2 ^ 53) 2 = 2 ^ 52"
proof -
  have i: "to_Index 64 (2 ^ 53 + 1) = 2 ^ 53 + 1"
    unfolding to_Index_def by (intro signed_take_bit_int_eq_self) simp_all
  have b: "to_double (real 2) = 2" using to_double_of_int [of 2] by simp
  have c: "to_double (2 ^ 53 / 2) = 2 ^ 52"
    using to_double_of_int [of "2 ^ 52"] by simp
  have "std_round (2 ^ 52) = 2 ^ 52" by (simp add: std_round_def)
  then show ?thesis unfolding slice_size_def i to_double_tie b c by simp
qed

text \<open>
  Claim C3, as the code has it: in the parallel path, for every \<open>loop_size\<close> whose
  successor lies within \<open>Index\<close> and below \<open>2^52\<close> and every worker count \<open>W\<close>
  below \<open>2^53\<close>, the slice size is the quotient \<open>(loop_size + 1) / W\<close> rounded to
  the nearest integer (halves upwards), and at least 1; it is
  \<open>\<lceil>(loop_size + 1) / W\<rceil>\<close> or one less.
\<close>

theorem slice_size_rounds:
  assumes "0 \<le> loop_size" "loop_size + 1 < 2 ^ (index_bits - 1)" "loop_size + 1 < 2 ^ 52"
    and "0 < nthreads" "nthreads < 2 ^ 53"
  shows "slice_size index_bits loop_size nthreads =
           max ((2 * (loop_size + 1) + int nthreads) div (2 * int nthreads)) 1
       \<and> \<lceil>real_of_int (loop_size + 1) / real nthreads\<rceil> - 1
             \<le> slice_size index_bits loop_size nthreads
       \<and> slice_size index_bits loop_size nthreads
             \<le> \<lceil>real_of_int (loop_size + 1) / real nthreads\<rceil>"
proof -
  let ?q = "real_of_int (loop_size + 1) / real nthreads"
  have q: "0 < ?q" using assms by simp
  have "real_of_int (loop_size + 1) / real nthreads + 1 / 2
          = real_of_int (2 * (loop_size + 1) + int nthreads) / real_of_int (2 * int nthreads)"
    using assms by (simp add: field_simps)
  then have f: "\<lfloor>?q + 1 / 2\<rfloor> = (2 * (loop_size + 1) + int nthreads) div (2 * int nthreads)"
    by (simp only: floor_divide_of_int_eq)
  have c1: "1 \<le> \<lceil>?q\<rceil>" using q by linarith
  have up: "\<lfloor>?q + 1 / 2\<rfloor> \<le> \<lceil>?q\<rceil>" by linarith
  have lo: "\<lceil>?q\<rceil> - 1 \<le> \<lfloor>?q + 1 / 2\<rfloor>" by linarith
  show ?thesis
    unfolding slice_size_exact [OF assms] using f c1 up lo by simp
qed

theorem slice_size_rounds_witness:
  "(0::int) \<le> 4 \<and> (4::int) + 1 < 2 ^ (32 - 1) \<and> (4::int) + 1 < 2 ^ 52
   \<and> (0::nat) < 4 \<and> (4::nat) < 2 ^ 53
   \<and> slice_size 32 4 4 = 1
   \<and> \<lceil>real_of_int (4 + 1) / real (4::nat)\<rceil> - 1 \<le> slice_size 32 4 4
   \<and> slice_size 32 4 4 \<le> \<lceil>real_of_int (4 + 1) / real (4::nat)\<rceil>"
  using slice_size_rounds [of 4 32 4] by simp

text \<open>
  For a 32-bit \<open>Index\<close>, \<open>loop_size = 4\<close> and four workers (no environment value,
  four hardware threads, \<open>min_parallel = 0\<close>) the parallel path is taken with slices
  of size 1, while \<open>\<lceil>(4 + 1) / 4\<rceil> = 2\<close>.
\<close>

theorem slice_size_ceil_counterexample:
  "slice_size 32 4 4 = 1 \<and> \<lceil>real_of_int (4 + 1) / real (4::nat)\<rceil> = (2::int)
   \<and> parallel_for 32 \<lparr>env_num_thread = None, hw_num_threads = 4\<rparr> None 4 0 =
     Inr (True,
      [PrepFunc 4, Spawn 0 1 0, Spawn 1 2 1, Spawn 2 3 2, Spawn 3 4 3, Join 0,
       Join 1, Join 2, Join 3, AccumFunc 0, AccumFunc 1, AccumFunc 2, AccumFunc 3],
      Some 4)"
proof -
  have s: "slice_size 32 4 4 = 1" using slice_size_exact [of 4 32 4] by simp
  have c: "\<lceil>real_of_int (4 + 1) / real (4::nat)\<rceil> = (2::int)" by simp
  have l: "launch 1 4 4 0 1 0 [] = (3, 3, [Spawn 0 1 0, Spawn 1 2 1, Spawn 2 3 2])"
    by (simp add: launch.simps)
  have u: "[0..<4] = [0, 1, 2, 3]" by (simp add: upt_rec)
  show ?thesis using s c l
    by (simp add: parallel_for_def default_num_threads_def MySingleton_def u)
qed

subsection \<open>The serial path\<close>

text \<open>
  Claim C5: a run with \<open>loop_size = 0\<close> makes no call and returns \<open>false\<close>; a run
  with \<open>0 < loop_size\<close> and \<open>loop_size < min_parallel\<close>, or with a resolved worker
  count of at most 1, calls \<open>prep_func(1)\<close>, then \<open>func(i, 0)\<close> for
  \<open>i = 0, ..., loop_size - 1\<close> in strictly increasing order on the calling thread,
  then \<open>accum_func(0)\<close>, and returns \<open>false\<close>.
\<close>

theorem parallel_for_serial:
  "parallel_for index_bits p inst 0 min_parallel = Inr (False, [], inst)
   \<and> (0 < loop_size \<and> (loop_size < int min_parallel \<or> fst (default_num_threads p 0 inst) \<le> 1) \<longrightarrow>
        parallel_for index_bits p inst loop_size min_parallel =
          Inr (False,
               [PrepFunc 1] @ map (\<lambda>i. FuncCall i 0) [0..loop_size - 1] @ [AccumFunc 0],
               snd (default_num_threads p 0 inst))
        \<and> sorted_wrt (<) [0..loop_size - 1])"
  by (auto simp: parallel_for_def split: prod.splits)

theorem parallel_for_serial_witness:
  "parallel_for 32 \<lparr>env_num_thread = Some 1, hw_num_threads = 4\<rparr> None 0 0 = Inr (False, [], None)
   \<and> parallel_for 32 \<lparr>env_num_thread = Some 1, hw_num_threads = 4\<rparr> None 3 0 =
          Inr (False, [PrepFunc 1, FuncCall 0 0, FuncCall 1 0, FuncCall 2 0, AccumFunc 0], Some 1)
   \<and> parallel_for 32 \<lparr>env_num_thread = None, hw_num_threads = 4\<rparr> (Some 4) 2 3 =
          Inr (False, [PrepFunc 1, FuncCall 0 0, FuncCall 1 0, AccumFunc 0], Some 4)"
proof -
  have u: "[0..(2::int)] = [0, 1, 2]" "[0..(1::int)] = [0, 1]" by (simp_all add: upto.simps)
  show ?thesis
    using parallel_for_serial [where index_bits = 32
          and p = "\<lparr>env_num_thread = Some 1, hw_num_threads = 4\<rparr>"
          and inst = None and min_parallel = 0 and loop_size = 3]
      parallel_for_serial [where index_bits = 32
          and p = "\<lparr>env_num_thread = None, hw_num_threads = 4\<rparr>"
          and inst = "Some 4" and min_parallel = 3 and loop_size = 2]
    by (simp add: default_num_threads_def MySingleton_def u)
qed

subsection \<open>The parallel path\<close>






section \<open>Properties of the adapter\<close>

subsection \<open>Building a volume\<close>

lemma face_indices_length: "face_indices fs = Inr tris \<Longrightarrow> length tris = length fs"
  by (induction fs arbitrary: tris) (auto split: sum.splits)

text \<open>
  What \<open>meshToVolume\<close> hands to the volume kernel, once its assertion holds, a mesh
  is bound and the winding-number service is initialised.
\<close>

lemma meshToVolume_call:
  assumes "voxelSize a > 0" and "m a = Some msh" and "init ext msh 2 = Inr w"
  shows "meshToVolume ext a =
     (case vdb_meshToVolume ext
             ((meshDataAdapter a)\<lparr>mda_m := Some msh,
                mda_xform := Some (createLinearTransform ext (voxelSize a))\<rparr>)
             (createLinearTransform ext (voxelSize a))
             ((if isovalue a > 0 then isovalue a / voxelSize a else 0) + 1 / 2)
             ((if isovalue a < 0 then (- isovalue a) / voxelSize a else 0) + 1 / 2)
             0
             (interiorTest (createLinearTransform ext (voxelSize a)) w (voxelSize a)) of
        Inl e \<Rightarrow> Inl e
      | Inr g \<Rightarrow> Inr (a\<lparr>meshDataAdapter :=
                          (meshDataAdapter a)\<lparr>mda_m := Some msh,
                             mda_xform := Some (createLinearTransform ext (voxelSize a))\<rparr>,
                        windingNumber := w, grid := Some g\<rparr>))"
  using assms by (simp add: meshToVolume_def Let_def)

text \<open>
  Claim C1: for every voxel coordinate, the interior test that \<open>meshToVolume\<close> hands
  to the volume kernel answers "inside" exactly when the absolute value of the winding
  number of the voxel's world position is at least 0.5, where the winding number is the
  solid angle returned by the summation service divided by \<open>4\<pi>\<close>; equivalently, when
  the absolute solid angle is at least \<open>2\<pi>\<close>.
\<close>

theorem interiorTest_threshold:
  "fst (interiorTest xform w vs coord) =
     (\<bar>fst (computeWindingNumber w (indexToWorld xform coord) (Some vs))\<bar> \<ge> 1 / 2)
   \<and> fst (computeWindingNumber w pt (Some acc)) = solid_angle w pt acc / (4 * pi)
   \<and> fst (interiorTest xform w vs coord) = (\<bar>solid_angle w (indexToWorld xform coord) vs\<bar> \<ge> 2 * pi)"
  by (simp add: interiorTest_def computeWindingNumber_def Let_def field_simps)

text \<open>
  Claim C2: with \<open>voxelSize > 0\<close> (and a mesh bound, on which the winding-number
  service initialises), \<open>meshToVolume\<close> calls the volume kernel with the outer band
  width \<open>max(isovalue, 0) / voxelSize + 0.5\<close> and the inner band width
  \<open>max(-isovalue, 0) / voxelSize + 0.5\<close>. The widths are computed from the
  parameters the adapter holds at the call; the adapter has no field for them, and the
  call changes only the data adapter, the winding-number service and the grid.
\<close>

theorem meshToVolume_band_widths:
  assumes "voxelSize a > 0" and "m a = Some msh" and "init ext msh 2 = Inr w"
  shows "meshToVolume ext a =
     (case vdb_meshToVolume ext
             ((meshDataAdapter a)\<lparr>mda_m := Some msh,
                mda_xform := Some (createLinearTransform ext (voxelSize a))\<rparr>)
             (createLinearTransform ext (voxelSize a))
             (max (isovalue a) 0 / voxelSize a + 1 / 2)
             (max (- isovalue a) 0 / voxelSize a + 1 / 2)
             0
             (interiorTest (createLinearTransform ext (voxelSize a)) w (voxelSize a)) of
        Inl e \<Rightarrow> Inl e
      | Inr g \<Rightarrow> Inr (a\<lparr>meshDataAdapter :=
                          (meshDataAdapter a)\<lparr>mda_m := Some msh,
                             mda_xform := Some (createLinearTransform ext (voxelSize a))\<rparr>,
                        windingNumber := w, grid := Some g\<rparr>))"
proof -
  have o: "(if isovalue a > 0 then isovalue a / voxelSize a else 0) = max (isovalue a) 0 / voxelSize a"
    by (simp add: max_def)
  have i: "(if isovalue a < 0 then (- isovalue a) / voxelSize a else 0) = max (- isovalue a) 0 / voxelSize a"
    by (simp add: max_def)
  show ?thesis unfolding meshToVolume_call [OF assms] o i ..
qed

theorem meshToVolume_band_widths_witness:
  "voxelSize a0 > 0
   \<and> m a0 = Some mesh0
   \<and> init ext0 mesh0 2 = Inr \<lparr>solid_angle = (\<lambda>pt acc. 0)\<rparr>
   \<and> (case meshToVolume ext0 a0 of Inl e \<Rightarrow> None | Inr a' \<Rightarrow> grid a') = Some (3 / 4, 1 / 2)"
proof -
  have v: "voxelSize a0 > 0" by (simp add: a0_def)
  have b: "m a0 = Some mesh0" by (simp add: a0_def)
  have w: "init ext0 mesh0 2 = Inr \<lparr>solid_angle = (\<lambda>pt acc. 0)\<rparr>"
    by (simp add: init_def ext0_def mesh0_def)
  have "(case meshToVolume ext0 a0 of Inl e \<Rightarrow> None | Inr a' \<Rightarrow> grid a') = Some (3 / 4, 1 / 2)"
    unfolding meshToVolume_band_widths [OF v b w] by (simp add: ext0_def a0_def)
  with v b w show ?thesis by blast
qed

text \<open>
  Claim C10: in \<open>meshToVolume\<close>, the interior-test callback handed to the volume
  kernel makes, for every voxel coordinate, exactly one evaluation of the solid-angle
  service, at the world position of the voxel and with the configured \<open>voxelSize\<close> as
  accuracy scale; the accuracy scale 2.0 is what \<open>computeWindingNumber\<close> passes when
  the argument is left out.
\<close>

theorem interiorTest_accuracy_scale:
  assumes "voxelSize a > 0" and "m a = Some msh" and "init ext msh 2 = Inr w"
  shows "\<exists>mda outerBand innerBand.
     meshToVolume ext a =
       (case vdb_meshToVolume ext mda (createLinearTransform ext (voxelSize a)) outerBand innerBand 0
               (interiorTest (createLinearTransform ext (voxelSize a)) w (voxelSize a)) of
          Inl e \<Rightarrow> Inl e
        | Inr g \<Rightarrow> Inr (a\<lparr>meshDataAdapter := mda, windingNumber := w, grid := Some g\<rparr>))
     \<and> snd (interiorTest (createLinearTransform ext (voxelSize a)) w (voxelSize a) coord) =
         [ComputeSolidAngle (indexToWorld (createLinearTransform ext (voxelSize a)) coord) (voxelSize a)]
     \<and> snd (computeWindingNumber w pt None) = [ComputeSolidAngle pt 2]"
proof -
  have "snd (interiorTest (createLinearTransform ext (voxelSize a)) w (voxelSize a) coord) =
         [ComputeSolidAngle (indexToWorld (createLinearTransform ext (voxelSize a)) coord) (voxelSize a)]"
    by (simp add: interiorTest_def computeWindingNumber_def Let_def)
  moreover have "snd (computeWindingNumber w pt None) = [ComputeSolidAngle pt 2]"
    by (simp add: computeWindingNumber_def)
  ultimately show ?thesis using meshToVolume_call [OF assms] by blast
qed

theorem interiorTest_accuracy_scale_witness:
  "voxelSize a0 > 0
   \<and> m a0 = Some mesh0
   \<and> init ext0 mesh0 2 = Inr \<lparr>solid_angle = (\<lambda>pt acc. 0)\<rparr>
   \<and> snd (interiorTest (createLinearTransform ext0 (voxelSize a0)) \<lparr>solid_angle = (\<lambda>pt acc. 0)\<rparr>
            (voxelSize a0) (1, 2, 3)) = [ComputeSolidAngle (4, 8, 12) 4]
   \<and> snd (computeWindingNumber \<lparr>solid_angle = (\<lambda>pt acc. 0)\<rparr> (4, 8, 12) None)
        = [ComputeSolidAngle (4, 8, 12) 2]"
proof -
  have v: "voxelSize a0 > 0" by (simp add: a0_def)
  have b: "m a0 = Some mesh0" by (simp add: a0_def)
  have w: "init ext0 mesh0 2 = Inr \<lparr>solid_angle = (\<lambda>pt acc. 0)\<rparr>"
    by (simp add: init_def ext0_def mesh0_def)
  show ?thesis
    using interiorTest_accuracy_scale [OF v b w, of "(1, 2, 3)" "(4, 8, 12)"] v b w
    by (simp add: ext0_def a0_def)
qed

text \<open>
  Claim C8: with \<open>voxelSize > 0\<close> (and a bound mesh with vertices and faces, as the
  assertions of \<open>meshToLevelSet\<close> require), \<open>meshToLevelSet\<close> calls the level-set
  kernel with the half-width \<open>|isovalue| / voxelSize + 1.0\<close>.
\<close>

theorem meshToLevelSet_half_width:
  assumes "m a = Some msh" and "vert msh \<noteq> []" and "face msh \<noteq> []"
    and "face_indices (face msh) = Inr tris" and "voxelSize a > 0"
  shows "meshToLevelSet ext a =
     (case vdb_meshToLevelSet ext (createLinearTransform ext (voxelSize a)) (vert msh) tris
             (\<bar>isovalue a\<bar> / voxelSize a + 1) of
        Inl e \<Rightarrow> Inl e
      | Inr g \<Rightarrow> Inr (a\<lparr>mVtx := vert msh, mTri := tris, mQuad := [], grid := Some g\<rparr>))"
proof -
  have t: "tris \<noteq> []" using face_indices_length [OF assms(4)] assms(3) by auto
  have h: "\<bar>isovalue a / voxelSize a\<bar> = \<bar>isovalue a\<bar> / voxelSize a" using assms(5) by simp
  show ?thesis using assms t h
    by (auto simp: meshToLevelSet_def copyMeshVectors_def clearVectors_def Let_def split: sum.splits)
qed

theorem meshToLevelSet_half_width_witness:
  "m a0 = Some mesh0
   \<and> vert mesh0 \<noteq> []
   \<and> face mesh0 \<noteq> []
   \<and> face_indices (face mesh0) = Inr [(0, 1, 2)]
   \<and> voxelSize a0 > 0
   \<and> (case meshToLevelSet ext0 a0 of Inl e \<Rightarrow> None | Inr a' \<Rightarrow> grid a') = Some (5 / 4, 5 / 4)"
proof -
  have b: "m a0 = Some mesh0" by (simp add: a0_def)
  have v: "voxelSize a0 > 0" by (simp add: a0_def)
  have f: "face_indices (face mesh0) = Inr [(0, 1, 2)]" by (simp add: mesh0_def)
  have n1: "vert mesh0 \<noteq> []" and n2: "face mesh0 \<noteq> []" by (simp_all add: mesh0_def)
  have "(case meshToLevelSet ext0 a0 of Inl e \<Rightarrow> None | Inr a' \<Rightarrow> grid a') = Some (5 / 4, 5 / 4)"
    unfolding meshToLevelSet_half_width [OF b n1 n2 f v] by (simp add: ext0_def a0_def)
  with b v f n1 n2 show ?thesis by simp
qed


subsection \<open>Reconstructing the mesh\<close>

lemma reversed_triangle_simp:
  "reversed_triangle (a, b, c) = (VertPtr c, VertPtr b, VertPtr a)"
  by (simp add: reversed_triangle_def)

lemma split_quad_simp:
  "split_quad (a, b, c, d) = [(VertPtr c, VertPtr b, VertPtr a), (VertPtr d, VertPtr c, VertPtr a)]"
  by (simp add: split_quad_def)

lemma length_split_quads: "length (concat (map split_quad quad)) = 2 * length quad"
  by (induction quad) (auto simp: split_quad_def)

text \<open>Writing the element at the boundary between the filled and the unfilled part.\<close>

lemma update_at_boundary:
  "length pre = k \<Longrightarrow> k < length xs \<Longrightarrow> (pre @ drop k xs)[k := x] = (pre @ [x]) @ drop (Suc k) xs"
  by (simp add: list_update_append Cons_nth_drop_Suc [symmetric])

lemma set_vertices_steps:
  assumes "length (vert msh) = vi + length vtx" "n \<le> length vtx"
  shows "fold (\<lambda>i msh. msh\<lparr>vert := (vert msh)[vi + i := vtx ! i]\<rparr>) [0..<n] msh
           = msh\<lparr>vert := take vi (vert msh) @ take n vtx @ drop (vi + n) (vert msh)\<rparr>"
  using assms(2)
proof (induction n)
  case 0
  show ?case by simp
next
  case (Suc n)
  let ?pre = "take vi (vert msh) @ take n vtx"
  have l: "length ?pre = vi + n" using assms(1) Suc.prems by simp
  have b: "vi + n < length (vert msh)" using assms(1) Suc.prems by simp
  have "(?pre @ drop (vi + n) (vert msh))[vi + n := vtx ! n]
          = (?pre @ [vtx ! n]) @ drop (Suc (vi + n)) (vert msh)"
    by (rule update_at_boundary [OF l b])
  moreover have "take (Suc n) vtx = take n vtx @ [vtx ! n]"
    using Suc.prems by (simp add: take_Suc_conv_app_nth)
  ultimately show ?case using Suc by simp
qed

lemma set_vertices_result:
  assumes "length (vert msh) = vi + length vtx"
  shows "set_vertices vtx vi msh = msh\<lparr>vert := take vi (vert msh) @ vtx\<rparr>"
  using set_vertices_steps [OF assms, of "length vtx"] assms by (simp add: set_vertices_def)

lemma set_triangles_steps:
  assumes "fi + length tri \<le> length (face msh)" "n \<le> length tri"
  shows "fold (\<lambda>i (msh, fi).
             (case tri ! i of (t0, t1, t2) \<Rightarrow>
                (msh\<lparr>face := (face msh)[fi := (VertPtr t2, VertPtr t1, VertPtr t0)]\<rparr>, fi + 1)))
          [0..<n] (msh, fi)
         = (msh\<lparr>face := take fi (face msh) @ map reversed_triangle (take n tri)
                          @ drop (fi + n) (face msh)\<rparr>,
            fi + n)"
  using assms(2)
proof (induction n)
  case 0
  show ?case by simp
next
  case (Suc n)
  let ?pre = "take fi (face msh) @ map reversed_triangle (take n tri)"
  have l: "length ?pre = fi + n" using assms(1) Suc.prems by simp
  have b: "fi + n < length (face msh)" using assms(1) Suc.prems by simp
  have u: "(?pre @ drop (fi + n) (face msh))[fi + n := reversed_triangle (tri ! n)]
          = (?pre @ [reversed_triangle (tri ! n)]) @ drop (Suc (fi + n)) (face msh)"
    by (rule update_at_boundary [OF l b])
  have t: "take (Suc n) tri = take n tri @ [tri ! n]"
    using Suc.prems by (simp add: take_Suc_conv_app_nth)
  obtain t0 t1 t2 where e: "tri ! n = (t0, t1, t2)" by (cases "tri ! n") auto
  show ?case using Suc u t e by (simp add: reversed_triangle_simp)
qed

lemma set_triangles_result:
  assumes "fi + length tri \<le> length (face msh)"
  shows "set_triangles tri fi msh =
           (msh\<lparr>face := take fi (face msh) @ map reversed_triangle tri
                          @ drop (fi + length tri) (face msh)\<rparr>,
            fi + length tri)"
  using set_triangles_steps [OF assms, of "length tri"] by (simp add: set_triangles_def)

lemma set_quads_steps:
  assumes "fi + 2 * length quad \<le> length (face msh)" "n \<le> length quad"
  shows "fold (\<lambda>i (msh, fi).
             (case quad ! i of (q0, q1, q2, q3) \<Rightarrow>
                let msh1 = msh\<lparr>face := (face msh)[fi := (VertPtr q2, VertPtr q1, VertPtr q0)]\<rparr>;
                    fi1 = fi + 1;
                    msh2 = msh1\<lparr>face := (face msh1)[fi1 := (VertPtr q3, VertPtr q2, VertPtr q0)]\<rparr>;
                    fi2 = fi1 + 1
                in (msh2, fi2)))
          [0..<n] (msh, fi)
         = (msh\<lparr>face := take fi (face msh) @ concat (map split_quad (take n quad))
                          @ drop (fi + 2 * n) (face msh)\<rparr>,
            fi + 2 * n)"
  using assms(2)
proof (induction n)
  case 0
  show ?case by simp
next
  case (Suc n)
  obtain q0 q1 q2 q3 where e: "quad ! n = (q0, q1, q2, q3)" by (cases "quad ! n") auto
  let ?pre = "take fi (face msh) @ concat (map split_quad (take n quad))"
  let ?f1 = "(VertPtr q2, VertPtr q1, VertPtr q0)"
  let ?f2 = "(VertPtr q3, VertPtr q2, VertPtr q0)"
  have ln: "length (concat (map split_quad (take n quad))) = 2 * n"
    using Suc.prems by (simp add: length_split_quads)
  have l: "length ?pre = fi + 2 * n" using assms(1) Suc.prems ln by simp
  have b: "fi + 2 * n < length (face msh)" using assms(1) Suc.prems by simp
  have u1: "(?pre @ drop (fi + 2 * n) (face msh))[fi + 2 * n := ?f1]
          = (?pre @ [?f1]) @ drop (Suc (fi + 2 * n)) (face msh)"
    by (rule update_at_boundary [OF l b])
  have l2: "length (?pre @ [?f1]) = Suc (fi + 2 * n)" using l by simp
  have b2: "Suc (fi + 2 * n) < length (face msh)" using assms(1) Suc.prems by simp
  have u2: "((?pre @ [?f1]) @ drop (Suc (fi + 2 * n)) (face msh))[Suc (fi + 2 * n) := ?f2]
          = ((?pre @ [?f1]) @ [?f2]) @ drop (Suc (Suc (fi + 2 * n))) (face msh)"
    by (rule update_at_boundary [OF l2 b2])
  have t: "take (Suc n) quad = take n quad @ [quad ! n]"
    using Suc.prems by (simp add: take_Suc_conv_app_nth)
  have c: "concat (map split_quad (take (Suc n) quad))
             = concat (map split_quad (take n quad)) @ [?f1, ?f2]"
    using t e by (simp add: split_quad_simp)
  have "fold (\<lambda>i (msh, fi).
             (case quad ! i of (q0, q1, q2, q3) \<Rightarrow>
                let msh1 = msh\<lparr>face := (face msh)[fi := (VertPtr q2, VertPtr q1, VertPtr q0)]\<rparr>;
                    fi1 = fi + 1;
                    msh2 = msh1\<lparr>face := (face msh1)[fi1 := (VertPtr q3, VertPtr q2, VertPtr q0)]\<rparr>;
                    fi2 = fi1 + 1
                in (msh2, fi2)))
          [0..<Suc n] (msh, fi)
      = (msh\<lparr>face := ((?pre @ drop (fi + 2 * n) (face msh))[fi + 2 * n := ?f1])
                          [Suc (fi + 2 * n) := ?f2]\<rparr>,
         Suc (Suc (fi + 2 * n)))"
    using Suc e by (simp add: Let_def)
  also have "\<dots> = (msh\<lparr>face := ((?pre @ [?f1]) @ [?f2]) @ drop (Suc (Suc (fi + 2 * n))) (face msh)\<rparr>,
         Suc (Suc (fi + 2 * n)))"
    by (simp only: u1 u2)
  finally show ?case using c by simp
qed

lemma set_quads_result:
  assumes "fi + 2 * length quad \<le> length (face msh)"
  shows "set_quads quad fi msh =
           (msh\<lparr>face := take fi (face msh) @ concat (map split_quad quad)
                          @ drop (fi + 2 * length quad) (face msh)\<rparr>,
            fi + 2 * length quad)"
  using set_quads_steps [OF assms, of "length quad"] by (simp add: set_quads_def)

text \<open>
  Claim C7: when the extraction returns a soup of vertices, triangles and quads,
  \<open>volumeToMesh\<close> ends without error and leaves in the output mesh exactly the
  vertices of the soup, in order, and \<open>|triangles| + 2 * |quads|\<close> faces: each
  triangle \<open>(a, b, c)\<close> as \<open>(c, b, a)\<close>, then each quad \<open>(a, b, c, d)\<close> as the two
  triangles \<open>(c, b, a)\<close> and \<open>(d, c, a)\<close>. The quad \<open>(0, 1, 2, 3)\<close> gives
  \<open>(2, 1, 0)\<close> and \<open>(3, 2, 0)\<close>, and the empty soup gives the empty mesh.
\<close>

theorem volumeToMesh_reconstructs:
  assumes "grid a = Some g"
    and "vdb_volumeToMesh ext g (isovalue a) (adaptivity a) = Inr (vtx, tri, quad)"
  shows "volumeToMesh ext a outMesh =
           Inr (a\<lparr>mVtx := vtx, mTri := tri, mQuad := quad\<rparr>,
                \<lparr>vert = vtx, face = map reversed_triangle tri @ concat (map split_quad quad)\<rparr>)
       \<and> length (map reversed_triangle tri @ concat (map split_quad quad))
           = length tri + 2 * length quad
       \<and> reversed_triangle (i, j, k) = (VertPtr k, VertPtr j, VertPtr i)
       \<and> split_quad (i, j, k, l) = [(VertPtr k, VertPtr j, VertPtr i), (VertPtr l, VertPtr k, VertPtr i)]
       \<and> split_quad (0, 1, 2, 3) = [(VertPtr 2, VertPtr 1, VertPtr 0), (VertPtr 3, VertPtr 2, VertPtr 0)]"
proof -
  let ?nf = "length tri + length quad * 2"
  let ?m2 = "outMesh\<lparr>vert := replicate (length vtx) (fresh_vertex ext),
                      face := replicate ?nf (Null, Null, Null)\<rparr>"
  have a: "AddVertices (fresh_vertex ext) (Clear outMesh) (length vtx)
             = (outMesh\<lparr>vert := replicate (length vtx) (fresh_vertex ext), face := []\<rparr>, 0)"
    by (simp add: AddVertices_def Clear_def)
  have b: "AddFaces (outMesh\<lparr>vert := replicate (length vtx) (fresh_vertex ext), face := []\<rparr>) ?nf
             = (?m2, 0)"
    by (simp add: AddFaces_def)
  have c: "set_vertices vtx 0 ?m2 = outMesh\<lparr>vert := vtx, face := replicate ?nf (Null, Null, Null)\<rparr>"
    using set_vertices_result [of ?m2 0 vtx] by simp
  have d: "set_triangles tri 0 (outMesh\<lparr>vert := vtx, face := replicate ?nf (Null, Null, Null)\<rparr>)
             = (outMesh\<lparr>vert := vtx,
                  face := map reversed_triangle tri @ replicate (length quad * 2) (Null, Null, Null)\<rparr>,
                length tri)"
    using set_triangles_result [of 0 tri "outMesh\<lparr>vert := vtx, face := replicate ?nf (Null, Null, Null)\<rparr>"]
    by simp
  have e: "set_quads quad (length tri) (outMesh\<lparr>vert := vtx,
                  face := map reversed_triangle tri @ replicate (length quad * 2) (Null, Null, Null)\<rparr>)
             = (outMesh\<lparr>vert := vtx, face := map reversed_triangle tri @ concat (map split_quad quad)\<rparr>,
                length tri + 2 * length quad)"
    using set_quads_result [of "length tri" quad "outMesh\<lparr>vert := vtx,
                  face := map reversed_triangle tri @ replicate (length quad * 2) (Null, Null, Null)\<rparr>"]
    by simp
  have r: "volumeToMesh ext a outMesh =
           Inr (a\<lparr>mVtx := vtx, mTri := tri, mQuad := quad\<rparr>,
                outMesh\<lparr>vert := vtx, face := map reversed_triangle tri @ concat (map split_quad quad)\<rparr>)"
    using assms by (simp add: volumeToMesh_def a b c d e)
  show ?thesis using r by (simp add: reversed_triangle_simp split_quad_simp length_split_quads)
qed

theorem volumeToMesh_reconstructs_witness:
  "grid a0 = Some (0, 0)
   \<and> vdb_volumeToMesh ext0 (0, 0) (isovalue a0) (adaptivity a0)
        = Inr ([(0, 0, 0), (1, 0, 0), (1, 1, 0), (0, 1, 0)], [], [(0, 1, 2, 3)])
   \<and> vdb_volumeToMesh ext_empty (0, 0) (isovalue a0) (adaptivity a0) = Inr ([], [], [])
   \<and> (case volumeToMesh ext0 a0 mesh0 of Inl x \<Rightarrow> None | Inr (a', msh) \<Rightarrow> Some msh)
        = Some \<lparr>vert = [(0, 0, 0), (1, 0, 0), (1, 1, 0), (0, 1, 0)],
                  face = [(VertPtr 2, VertPtr 1, VertPtr 0), (VertPtr 3, VertPtr 2, VertPtr 0)]\<rparr>
   \<and> (case volumeToMesh ext_empty a0 mesh0 of Inl x \<Rightarrow> None | Inr (a', msh) \<Rightarrow> Some msh)
        = Some \<lparr>vert = [], face = []\<rparr>"
proof -
  have g: "grid a0 = Some (0, 0)" by (simp add: a0_def)
  have q: "vdb_volumeToMesh ext0 (0, 0) (isovalue a0) (adaptivity a0)
        = Inr ([(0, 0, 0), (1, 0, 0), (1, 1, 0), (0, 1, 0)], [], [(0, 1, 2, 3)])"
    by (simp add: ext0_def)
  have e: "vdb_volumeToMesh ext_empty (0, 0) (isovalue a0) (adaptivity a0) = Inr ([], [], [])"
    by (simp add: ext_empty_def)
  show ?thesis
    using volumeToMesh_reconstructs [OF g q, where outMesh = mesh0]
      volumeToMesh_reconstructs [OF g e, where outMesh = mesh0] g q e
    by (simp add: split_quad_simp)
qed

text \<open>
  Whenever a run of \<open>volumeToMesh\<close> fails, for whatever reason, the mesh it leaves
  is the mesh it was given.
\<close>

lemma volumeToMesh_failure_keeps_mesh:
  "volumeToMesh ext a outMesh = Inl (e, msh) \<Longrightarrow> msh = outMesh"
  by (auto simp: volumeToMesh_def Let_def split: option.splits sum.splits prod.splits)

text \<open>
  Claim C9: when the extraction fails inside \<open>volumeToMesh\<close>, the failure is the
  result of the run and the output mesh is left as it was before the run: no vertex
  and no face is added to it, and a mesh that was cleared is still cleared.
\<close>

theorem volumeToMesh_extraction_failure:
  assumes "grid a = Some g"
    and "vdb_volumeToMesh ext g (isovalue a) (adaptivity a) = Inl e"
  shows "volumeToMesh ext a outMesh = Inl (e, outMesh)
       \<and> volumeToMesh ext a (Clear outMesh) = Inl (e, Clear outMesh)"
  using assms by (simp add: volumeToMesh_def)

theorem volumeToMesh_extraction_failure_witness:
  "grid a0 = Some (0, 0)
   \<and> vdb_volumeToMesh ext_failing (0, 0) (isovalue a0) (adaptivity a0) = Inl ExternalFailure
   \<and> volumeToMesh ext_failing a0 \<lparr>vert = [], face = []\<rparr>
       = Inl (ExternalFailure, \<lparr>vert = [], face = []\<rparr>)"
proof -
  have g: "grid a0 = Some (0, 0)" by (simp add: a0_def)
  have f: "vdb_volumeToMesh ext_failing (0, 0) (isovalue a0) (adaptivity a0) = Inl ExternalFailure"
    by (simp add: ext_failing_def)
  show ?thesis
    using volumeToMesh_extraction_failure [OF g f, of "\<lparr>vert = [], face = []\<rparr>"] g f by simp
qed

end
